theory Spec2Isabelle
  imports Main "HOL-Library.Word"
begin

section \<open>Values handed in by the surrounding libraries\<close>

text \<open>
  The transfers operation of \<^verbatim>\<open>currency/transfer.go\<close> works on values whose types live
  in other packages: byte strings, hashes, addresses, amounts, ledger states and errors.
  An interface value is described by what its methods return; a function of another
  package is a field of the record \<open>collaborators\<close>, so every theorem holds for any
  implementation of it. Interface values are taken to be non-nil; \<^verbatim>\<open>isvalid.Check\<close>
  refuses a nil value, which is one of the ways \<open>addr_IsValid\<close> can be an error.
\<close>

type_synonym bytes = "8 word list"

text \<open>
  Errors keep the call that built them. Messages are the format strings of the source,
  without their formatted arguments.
\<close>

datatype error =
    Errorf string
  | Errorf_w string error
  | IgnoreError_Errorf string
  | IgnoreError_Errorf_w string error
  | IgnoreError_Wrap error
  | InvalidError_Errorf string

text \<open>
  Modelled from the spec: the "dedicated ignorable error wrapping convention" of
  \<^verbatim>\<open>util.IgnoreError\<close>, which is not among the sources. An error is in the ignorable
  class when \<^verbatim>\<open>util.IgnoreError\<close> built it or occurs in the chain of errors it wraps
  with \<^verbatim>\<open>%w\<close>.
\<close>

fun is_IgnoreError :: "error \<Rightarrow> bool" where
  "is_IgnoreError (Errorf m) = False"
| "is_IgnoreError (Errorf_w m e) = is_IgnoreError e"
| "is_IgnoreError (IgnoreError_Errorf m) = True"
| "is_IgnoreError (IgnoreError_Errorf_w m e) = True"
| "is_IgnoreError (IgnoreError_Wrap e) = True"
| "is_IgnoreError (InvalidError_Errorf m) = False"

text \<open>\<^verbatim>\<open>valuehash.Hash\<close>: a digest; \<^verbatim>\<open>Equal\<close> compares the digests.\<close>

datatype Hash = Hash (hash_Bytes: bytes)

definition Hash_Equal :: "Hash \<Rightarrow> Hash \<Rightarrow> bool" where
  "Hash_Equal a b = (hash_Bytes a = hash_Bytes b)"

text \<open>\<^verbatim>\<open>base.Address\<close>: what \<^verbatim>\<open>IsValid(nil)\<close>, \<^verbatim>\<open>Bytes()\<close> and \<^verbatim>\<open>String()\<close> return.\<close>

record Address =
  addr_IsValid :: "error option"
  addr_Bytes :: bytes
  addr_String :: string

text \<open>
  Modelled from the spec: \<^verbatim>\<open>Amount\<close>, which is not among the sources. "Non-negative
  integer value with a defined zero element; supports add, subtract, comparison":
  an unbounded integer, structurally valid when it is not negative.
\<close>

type_synonym Amount = int

definition NewAmount :: "int \<Rightarrow> Amount" where
  "NewAmount i = i"

definition Amount_Add :: "Amount \<Rightarrow> Amount \<Rightarrow> Amount" where
  "Amount_Add a b = a + b"

definition Amount_Sub :: "Amount \<Rightarrow> Amount \<Rightarrow> Amount" where
  "Amount_Sub a b = a - b"

definition Amount_Compare :: "Amount \<Rightarrow> Amount \<Rightarrow> int" where
  "Amount_Compare a b = (if a < b then - 1 else if a = b then 0 else 1)"

definition Amount_IsZero :: "Amount \<Rightarrow> bool" where
  "Amount_IsZero a = (a = 0)"

definition Amount_IsValid :: "Amount \<Rightarrow> error option" where
  "Amount_IsValid a = (if a < 0 then Some (Errorf ''invalid amount; under zero'') else None)"

text \<open>
  \<^verbatim>\<open>state.State\<close>: a ledger entry, described by its key and by what
  \<^verbatim>\<open>StateAmountValue\<close>, which is not among the sources, reads from it: an amount,
  or an error when the entry does not hold one. Both results are left open.
\<close>

record State =
  st_Key :: string
  st_AmountValue :: "error + Amount"

definition StateAmountValue :: "State \<Rightarrow> error + Amount" where
  "StateAmountValue st = st_AmountValue st"

text \<open>
  Modelled from the spec: \<^verbatim>\<open>AmountState\<close>, which is not among the sources. It "wraps a
  looked-up account-balance ledger entry" and has "pure transforms over a copy, not the
  original entry, plus metadata recording whether a fee was charged": the wrapped entry
  (absent in the zero value of the struct), the net change staged on it, and the fee
  recorded.
\<close>

record AmountState =
  as_State :: "State option"
  as_add :: Amount
  as_fee :: Amount

definition zero_AmountState :: AmountState where
  "zero_AmountState = \<lparr>as_State = None, as_add = 0, as_fee = 0\<rparr>"

definition NewAmountState :: "State \<Rightarrow> AmountState" where
  "NewAmountState st = \<lparr>as_State = Some st, as_add = NewAmount 0, as_fee = NewAmount 0\<rparr>"

definition AmountState_Add :: "AmountState \<Rightarrow> Amount \<Rightarrow> AmountState" where
  "AmountState_Add st a = st\<lparr>as_add := Amount_Add (as_add st) a\<rparr>"

definition AmountState_Sub :: "AmountState \<Rightarrow> Amount \<Rightarrow> AmountState" where
  "AmountState_Sub st a = st\<lparr>as_add := Amount_Sub (as_add st) a\<rparr>"

definition AmountState_AddFee :: "AmountState \<Rightarrow> Amount \<Rightarrow> AmountState" where
  "AmountState_AddFee st f = st\<lparr>as_fee := Amount_Add (as_fee st) f\<rparr>"

text \<open>
  The balance an \<open>AmountState\<close> stands for: the amount of the wrapped entry with the
  staged change applied. There is none when no entry is wrapped or the entry holds no
  amount.
\<close>

definition AmountState_balance :: "AmountState \<Rightarrow> Amount option" where
  "AmountState_balance st =
     (case as_State st of
        None \<Rightarrow> None
      | Some s \<Rightarrow> (case StateAmountValue s of Inl e \<Rightarrow> None | Inr b \<Rightarrow> Some (Amount_Add b (as_add st))))"

text \<open>\<^verbatim>\<open>operation.FactSign\<close>, by its byte encoding.\<close>

type_synonym FactSign = bytes

text \<open>
  The two functions the engine hands to a processor. A lookup returns an error, or
  whether the entry was found and the entry; a commit returns an error or nothing.
  What a function of this file calls is recorded, in order, as a list of \<open>call\<close>s.
\<close>

type_synonym getState = "string \<Rightarrow> error + State option"
type_synonym setState = "Hash \<Rightarrow> AmountState list \<Rightarrow> error option"

datatype call = GetState string | SetState Hash "AmountState list"

fun is_SetState :: "call \<Rightarrow> bool" where
  "is_SetState (SetState k sts) = True"
| "is_SetState (GetState k) = False"

text \<open>
  The functions of other packages and of files that are not among the sources.
  \<open>checkFactSignsByState\<close> receives the lookup function only; it returns the keys it
  looked up and its verdict.
\<close>

record collaborators =
  NewSHA256 :: "bytes \<Rightarrow> Hash"
  Hash_IsValid :: "Hash \<Rightarrow> error option"
  Amount_Bytes :: "Amount \<Rightarrow> bytes"
  Address_Equal :: "Address \<Rightarrow> Address \<Rightarrow> bool"
  StateAddressKey :: "Address \<Rightarrow> string"
  StateKeyAccount :: "Address \<Rightarrow> string"
  StateKeyBalance :: "Address \<Rightarrow> string"
  checkFactSignsByState :: "Address \<Rightarrow> FactSign list \<Rightarrow> getState \<Rightarrow> string list \<times> error option"

text \<open>\<^verbatim>\<open>isvalid.Check\<close>: the first error among the results, in order.\<close>

fun isvalid_Check :: "error option list \<Rightarrow> error option" where
  "isvalid_Check [] = None"
| "isvalid_Check (None # vs) = isvalid_Check vs"
| "isvalid_Check (Some e # vs) = Some e"

text \<open>\<^verbatim>\<open>util.ConcatBytesSlice\<close>: the slices one after the other.\<close>

definition ConcatBytesSlice :: "bytes list \<Rightarrow> bytes" where
  "ConcatBytesSlice sl = concat sl"

section \<open>currency/transfer.go: items and facts\<close>

definition maxTransferItems :: nat where
  "maxTransferItems = 10"

record TransferItem =
  receiver :: Address
  amount :: Amount

definition NewTransferItem :: "Address \<Rightarrow> Amount \<Rightarrow> TransferItem" where
  "NewTransferItem r a = \<lparr>receiver = r, amount = a\<rparr>"

definition TransferItem_Bytes :: "collaborators \<Rightarrow> TransferItem \<Rightarrow> bytes" where
  "TransferItem_Bytes ext it =
     ConcatBytesSlice [addr_Bytes (receiver it), Amount_Bytes ext (amount it)]"

definition TransferItem_IsValid :: "TransferItem \<Rightarrow> error option" where
  "TransferItem_IsValid it =
     (case isvalid_Check [addr_IsValid (receiver it), Amount_IsValid (amount it)] of
        Some e \<Rightarrow> Some e
      | None \<Rightarrow>
          if Amount_IsZero (amount it) then Some (Errorf ''amount should be over zero'')
          else None)"

record TransfersFact =
  tff_h :: Hash
  tff_token :: bytes
  tff_sender :: Address
  tff_items :: "TransferItem list"

definition TransfersFact_Bytes :: "collaborators \<Rightarrow> TransfersFact \<Rightarrow> bytes" where
  "TransfersFact_Bytes ext tff =
     ConcatBytesSlice
       [tff_token tff,
        addr_Bytes (tff_sender tff),
        ConcatBytesSlice (map (TransferItem_Bytes ext) (tff_items tff))]"

definition GenerateHash :: "collaborators \<Rightarrow> TransfersFact \<Rightarrow> Hash" where
  "GenerateHash ext tff = NewSHA256 ext (TransfersFact_Bytes ext tff)"

text \<open>
  The struct literal of \<^verbatim>\<open>NewTransfersFact\<close> leaves \<^verbatim>\<open>h\<close> unset until the hash of
  the other three fields is stored in it; the hash does not read \<^verbatim>\<open>h\<close>.
\<close>

definition NewTransfersFact :: "collaborators \<Rightarrow> bytes \<Rightarrow> Address \<Rightarrow> TransferItem list \<Rightarrow> TransfersFact" where
  "NewTransfersFact ext tok sndr its =
     (let tff = \<lparr>tff_h = Hash [], tff_token = tok, tff_sender = sndr, tff_items = its\<rparr>
      in tff\<lparr>tff_h := GenerateHash ext tff\<rparr>)"

text \<open>
  The loop of \<^verbatim>\<open>TransfersFact.IsValid\<close> over the items; \<open>found\<close> is the map
  \<^verbatim>\<open>foundReceivers\<close>, whose values carry nothing.
\<close>

fun IsValid_items :: "collaborators \<Rightarrow> Address \<Rightarrow> string set \<Rightarrow> TransferItem list \<Rightarrow> error option" where
  "IsValid_items ext sndr found [] = None"
| "IsValid_items ext sndr found (it # its) =
     (case TransferItem_IsValid it of
        Some e \<Rightarrow> Some e
      | None \<Rightarrow>
          (let k = StateAddressKey ext (receiver it) in
           if k \<in> found then Some (Errorf ''duplicated receiver found, %s'')
           else if Address_Equal ext sndr (receiver it) then Some (Errorf ''receiver is same with sender, %q'')
           else IsValid_items ext sndr (insert k found) its))"

definition TransfersFact_IsValid :: "collaborators \<Rightarrow> TransfersFact \<Rightarrow> error option" where
  "TransfersFact_IsValid ext tff =
     (if length (tff_token tff) < 1 then Some (Errorf ''empty token for TransferFact'')
      else if length (tff_items tff) < 1 then Some (Errorf ''empty items'')
      else if length (tff_items tff) > maxTransferItems then Some (Errorf ''items, %d over max, %d'')
      else
        (case isvalid_Check [Hash_IsValid ext (tff_h tff), addr_IsValid (tff_sender tff)] of
           Some e \<Rightarrow> Some e
         | None \<Rightarrow>
             (case IsValid_items ext (tff_sender tff) {} (tff_items tff) of
                Some e \<Rightarrow> Some e
              | None \<Rightarrow>
                  if \<not> Hash_Equal (tff_h tff) (GenerateHash ext tff)
                  then Some (InvalidError_Errorf ''wrong Fact hash'')
                  else None)))"

definition TransfersFact_Amount :: "TransfersFact \<Rightarrow> Amount" where
  "TransfersFact_Amount tff =
     foldl (\<lambda>a it. Amount_Add a (amount it)) (NewAmount 0) (tff_items tff)"

text \<open>
  \<^verbatim>\<open>Addresses\<close> fills a slice of \<^verbatim>\<open>len(items)+1\<close> places: place \<open>i\<close> with the
  receiver of item \<open>i\<close>, the last place with the sender.
\<close>

definition Addresses :: "TransfersFact \<Rightarrow> Address list \<times> error option" where
  "Addresses tff = (map receiver (tff_items tff) @ [tff_sender tff], None)"

section \<open>currency/transfer.go: the envelope\<close>

text \<open>
  \<^verbatim>\<open>Transfers\<close> embeds \<^verbatim>\<open>operation.BaseOperation\<close>, of which the processors read the
  fact, the signatures and the hash.
\<close>

record Transfers =
  tf_Fact :: TransfersFact
  tf_Signs :: "FactSign list"
  tf_Hash :: Hash
  Memo :: string

definition Transfers_Process :: "Transfers \<Rightarrow> getState \<Rightarrow> setState \<Rightarrow> error option \<times> call list" where
  "Transfers_Process tf getSt setSt = (None, [])"

section \<open>Looking an account up\<close>

text \<open>
  Modelled from the spec: \<^verbatim>\<open>checkExistsAccountState\<close> and \<^verbatim>\<open>existsAccountState\<close>,
  which are not among the sources. They "verify the record present", with one lookup, as
  \<^verbatim>\<open>checkExistsState\<close> and \<^verbatim>\<open>existsState\<close> of \<^verbatim>\<open>extension/state.go\<close> do: the error
  of the lookup is returned as it is, and "account not found" is one of the
  "recoverable rejection errors".
\<close>

definition checkExistsAccountState :: "string \<Rightarrow> getState \<Rightarrow> error option \<times> call list" where
  "checkExistsAccountState key getSt =
     (case getSt key of
        Inl e \<Rightarrow> (Some e, [GetState key])
      | Inr None \<Rightarrow> (Some (IgnoreError_Errorf ''account state, %q does not exist''), [GetState key])
      | Inr (Some st) \<Rightarrow> (None, [GetState key]))"

definition existsAccountState :: "string \<Rightarrow> string \<Rightarrow> getState \<Rightarrow> (error + State) \<times> call list" where
  "existsAccountState k name getSt =
     (case getSt k of
        Inl e \<Rightarrow> (Inl e, [GetState k])
      | Inr None \<Rightarrow> (Inl (IgnoreError_Errorf (name @ '' does not exist'')), [GetState k])
      | Inr (Some st) \<Rightarrow> (Inr st, [GetState k]))"

section \<open>currency/transfer.go: the processor of one item\<close>

record TransferProcessor =
  tp_h :: Hash
  tp_fact :: TransferItem
  tp_rb :: AmountState

text \<open>
  A method on a pointer returns the receiver as the call left it, then its result, then
  the calls it made. \<^verbatim>\<open>TransfersProcessor.PreProcess\<close> returns the processor itself
  when it returns no error; it stores the sender's balance state and the fee before it
  resolves the items, and the item processors last.
\<close>

definition TransferProcessor_PreProcess ::
  "collaborators \<Rightarrow> TransferProcessor \<Rightarrow> getState \<Rightarrow> setState \<Rightarrow> TransferProcessor \<times> error option \<times> call list" where
  "TransferProcessor_PreProcess ext tf getSt setSt =
     (case existsAccountState (StateKeyAccount ext (receiver (tp_fact tf))) ''keys of receiver'' getSt of
        (Inl e, l1) \<Rightarrow> (tf, Some e, l1)
      | (Inr st0, l1) \<Rightarrow>
          (case existsAccountState (StateKeyBalance ext (receiver (tp_fact tf))) ''balance of receiver'' getSt of
             (Inl e, l2) \<Rightarrow> (tf, Some e, l1 @ l2)
           | (Inr st, l2) \<Rightarrow> (tf\<lparr>tp_rb := NewAmountState st\<rparr>, None, l1 @ l2)))"

definition TransferProcessor_Process ::
  "TransferProcessor \<Rightarrow> getState \<Rightarrow> setState \<Rightarrow> (error + AmountState) \<times> call list" where
  "TransferProcessor_Process tf getSt setSt =
     (Inr (AmountState_Add (tp_rb tf) (amount (tp_fact tf))), [])"

section \<open>currency/transfer.go: the processor of the operation\<close>

text \<open>\<^verbatim>\<open>FeeAmount\<close> is the fee schedule: its method \<^verbatim>\<open>Fee\<close>.\<close>

record TransfersProcessor =
  tsp_Transfers :: Transfers
  tsp_fa :: "Amount \<Rightarrow> error + Amount"
  tsp_sb :: AmountState
  tsp_rb :: "TransferProcessor list"
  tsp_fee :: Amount

fun calculateFee_items :: "(Amount \<Rightarrow> error + Amount) \<Rightarrow> Amount \<Rightarrow> TransferItem list \<Rightarrow> error + Amount" where
  "calculateFee_items fa acc [] = Inr acc"
| "calculateFee_items fa acc (it # its) =
     (case fa (amount it) of
        Inl e \<Rightarrow> Inl e
      | Inr f \<Rightarrow> calculateFee_items fa (Amount_Add acc f) its)"

definition calculateFee :: "TransfersProcessor \<Rightarrow> error + Amount" where
  "calculateFee tf =
     calculateFee_items (tsp_fa tf) (NewAmount 0) (tff_items (tf_Fact (tsp_Transfers tf)))"

text \<open>
  The loop of \<^verbatim>\<open>TransfersProcessor.PreProcess\<close> over the items: a fresh processor for
  each item, pre-processed; the first failure ends the loop.
\<close>

fun PreProcess_items ::
  "collaborators \<Rightarrow> Hash \<Rightarrow> getState \<Rightarrow> setState \<Rightarrow> TransferItem list \<Rightarrow> (error + TransferProcessor list) \<times> call list" where
  "PreProcess_items ext hs getSt setSt [] = (Inr [], [])"
| "PreProcess_items ext hs getSt setSt (it # its) =
     (case TransferProcessor_PreProcess ext
             \<lparr>tp_h = hs, tp_fact = it, tp_rb = zero_AmountState\<rparr> getSt setSt of
        (c, Some e, l) \<Rightarrow> (Inl (IgnoreError_Wrap e), l)
      | (c, None, l) \<Rightarrow>
          (case PreProcess_items ext hs getSt setSt its of
             (Inl e, l') \<Rightarrow> (Inl e, l @ l')
           | (Inr cs, l') \<Rightarrow> (Inr (c # cs), l @ l')))"

definition TransfersProcessor_PreProcess ::
  "collaborators \<Rightarrow> TransfersProcessor \<Rightarrow> getState \<Rightarrow> setState \<Rightarrow> TransfersProcessor \<times> error option \<times> call list" where
  "TransfersProcessor_PreProcess ext tf getSt setSt =
     (let fact = tf_Fact (tsp_Transfers tf) in
      case checkExistsAccountState (StateKeyAccount ext (tff_sender fact)) getSt of
        (Some e, l1) \<Rightarrow> (tf, Some e, l1)
      | (None, l1) \<Rightarrow>
     (case existsAccountState (StateKeyBalance ext (tff_sender fact)) ''balance of sender'' getSt of
        (Inl e, l2) \<Rightarrow> (tf, Some e, l1 @ l2)
      | (Inr st, l2) \<Rightarrow>
     (case calculateFee tf of
        Inl e \<Rightarrow> (tf, Some (IgnoreError_Wrap e), l1 @ l2)
      | Inr f \<Rightarrow>
     (case StateAmountValue st of
        Inl e \<Rightarrow> (tf, Some (IgnoreError_Wrap e), l1 @ l2)
      | Inr b \<Rightarrow>
          if Amount_Compare b (Amount_Add (TransfersFact_Amount fact) f) < 0
          then (tf, Some (IgnoreError_Errorf ''insufficient balance of sender''), l1 @ l2)
          else
            (let tf1 = tf\<lparr>tsp_sb := NewAmountState st, tsp_fee := f\<rparr> in
             case PreProcess_items ext (tf_Hash (tsp_Transfers tf)) getSt setSt (tff_items fact) of
               (Inl e, l3) \<Rightarrow> (tf1, Some e, l1 @ l2 @ l3)
             | (Inr cs, l3) \<Rightarrow>
                 (case checkFactSignsByState ext (tff_sender fact) (tf_Signs (tsp_Transfers tf)) getSt of
                    (ks, Some e) \<Rightarrow>
                      (tf1, Some (Errorf_w ''invalid signing'' e), l1 @ l2 @ l3 @ map GetState ks)
                  | (ks, None) \<Rightarrow>
                      (tf1\<lparr>tsp_rb := cs\<rparr>, None, l1 @ l2 @ l3 @ map GetState ks)))))))"

text \<open>
  The loop of \<^verbatim>\<open>TransfersProcessor.Process\<close> over the resolved item processors; a
  failing item would end it.
\<close>

fun Process_items ::
  "getState \<Rightarrow> setState \<Rightarrow> TransferProcessor list \<Rightarrow> (error + AmountState list) \<times> call list" where
  "Process_items getSt setSt [] = (Inr [], [])"
| "Process_items getSt setSt (c # cs) =
     (case TransferProcessor_Process c getSt setSt of
        (Inl e, l) \<Rightarrow> (Inl (IgnoreError_Errorf_w ''failed to process transfer item'' e), l)
      | (Inr st, l) \<Rightarrow>
          (case Process_items getSt setSt cs of
             (Inl e, l') \<Rightarrow> (Inl e, l @ l')
           | (Inr sts, l') \<Rightarrow> (Inr (st # sts), l @ l')))"

definition TransfersProcessor_Process ::
  "TransfersProcessor \<Rightarrow> getState \<Rightarrow> setState \<Rightarrow> error option \<times> call list" where
  "TransfersProcessor_Process tf getSt setSt =
     (let fact = tf_Fact (tsp_Transfers tf) in
      case Process_items getSt setSt (tsp_rb tf) of
        (Inl e, l) \<Rightarrow> (Some e, l)
      | (Inr rsts, l) \<Rightarrow>
          (let sts = rsts @
                 [AmountState_AddFee
                    (AmountState_Sub (tsp_sb tf) (Amount_Add (TransfersFact_Amount fact) (tsp_fee tf)))
                    (tsp_fee tf)]
           in (setSt (tff_h fact) sts, l @ [SetState (tff_h fact) sts])))"

section \<open>Reading the outcome of a processor\<close>

text \<open>
  The balance state a successful lookup of an address resolves to, and the amount by
  which a state has been credited since it was resolved.
\<close>

definition resolved_balance :: "collaborators \<Rightarrow> getState \<Rightarrow> Address \<Rightarrow> AmountState option" where
  "resolved_balance ext getSt a =
     (case getSt (StateKeyBalance ext a) of
        Inr (Some st) \<Rightarrow> Some (NewAmountState st)
      | _ \<Rightarrow> None)"

definition credited :: "AmountState \<Rightarrow> AmountState \<Rightarrow> Amount" where
  "credited before after = as_add after - as_add before"

section \<open>Example values\<close>

text \<open>
  One implementation of the collaborators, in which the digest of a byte string is the
  byte string itself (so it has no collisions); a second one whose signature check
  fails with an error that \<^verbatim>\<open>util.IgnoreError\<close> did not build; a fact with two items;
  a ledger in which the sender \<open>S\<close> and the receivers \<open>A\<close> and \<open>B\<close> exist, and one
  in which the lookup of the account of \<open>B\<close> fails; and an
  operation on that fact with a flat fee of 1 for each item, before and after
  pre-processing against a sender balance of 100.
\<close>

definition example_collaborators :: collaborators where
  "example_collaborators =
     \<lparr>NewSHA256 = Hash,
      Hash_IsValid = (\<lambda>hs. if hash_Bytes hs = [] then Some (Errorf ''empty hash'') else None),
      Amount_Bytes = (\<lambda>a. [word_of_int a]),
      Address_Equal = (\<lambda>a b. addr_String a = addr_String b),
      StateAddressKey = addr_String,
      StateKeyAccount = (\<lambda>a. addr_String a @ '':account''),
      StateKeyBalance = (\<lambda>a. addr_String a @ '':balance''),
      checkFactSignsByState = (\<lambda>a fs g. ([], None))\<rparr>"

definition example_address :: "string \<Rightarrow> Address" where
  "example_address s = \<lparr>addr_IsValid = None, addr_Bytes = map (\<lambda>c. of_nat (of_char c)) s, addr_String = s\<rparr>"

definition example_fact :: TransfersFact where
  "example_fact = NewTransfersFact example_collaborators [1] (example_address ''S'')
     [NewTransferItem (example_address ''A'') 30, NewTransferItem (example_address ''B'') 20]"

definition example_getState :: "Amount \<Rightarrow> getState" where
  "example_getState bal key =
     (if key = ''S:balance'' then Inr (Some \<lparr>st_Key = key, st_AmountValue = Inr bal\<rparr>)
      else if key = ''A:balance'' then Inr (Some \<lparr>st_Key = key, st_AmountValue = Inr 7\<rparr>)
      else if key = ''B:balance'' then Inr (Some \<lparr>st_Key = key, st_AmountValue = Inr 0\<rparr>)
      else if key = ''S:account'' \<or> key = ''A:account'' \<or> key = ''B:account''
        then Inr (Some \<lparr>st_Key = key, st_AmountValue = Inl (Errorf ''not an amount'')\<rparr>)
      else Inr None)"

definition example_getState_down :: getState where
  "example_getState_down key =
     (if key = ''B:account'' then Inl (Errorf ''store down'') else example_getState 52 key)"

definition example_setState :: setState where
  "example_setState hs sts = None"

definition example_processor :: TransfersProcessor where
  "example_processor =
     \<lparr>tsp_Transfers = \<lparr>tf_Fact = example_fact, tf_Signs = [[1]], tf_Hash = Hash [9], Memo = ''''\<rparr>,
      tsp_fa = (\<lambda>a. Inr 1),
      tsp_sb = zero_AmountState,
      tsp_rb = [],
      tsp_fee = 0\<rparr>"

definition example_collaborators_unsigned :: collaborators where
  "example_collaborators_unsigned =
     example_collaborators\<lparr>checkFactSignsByState := (\<lambda>a fs g. ([], Some (Errorf ''not passed threshold'')))\<rparr>"

definition example_preprocessed :: TransfersProcessor where
  "example_preprocessed =
     example_processor
       \<lparr>tsp_sb := NewAmountState \<lparr>st_Key = ''S:balance'', st_AmountValue = Inr 100\<rparr>,
        tsp_rb :=
          [\<lparr>tp_h = Hash [9], tp_fact = NewTransferItem (example_address ''A'') 30,
             tp_rb = NewAmountState \<lparr>st_Key = ''A:balance'', st_AmountValue = Inr 7\<rparr>\<rparr>,
           \<lparr>tp_h = Hash [9], tp_fact = NewTransferItem (example_address ''B'') 20,
             tp_rb = NewAmountState \<lparr>st_Key = ''B:balance'', st_AmountValue = Inr 0\<rparr>\<rparr>],
        tsp_fee := 2\<rparr>"

lemmas example_defs =
  example_collaborators_def example_collaborators_unsigned_def example_address_def
  example_fact_def example_getState_def example_getState_down_def example_setState_def
  example_processor_def
  NewTransfersFact_def NewTransferItem_def GenerateHash_def TransfersFact_Bytes_def
  TransferItem_Bytes_def ConcatBytesSlice_def

lemmas processor_defs =
  checkExistsAccountState_def existsAccountState_def calculateFee_def StateAmountValue_def
  TransferProcessor_PreProcess_def NewAmountState_def NewAmount_def Amount_Add_def
  zero_AmountState_def Let_def

section \<open>Validity of a fact\<close>

lemma Amount_IsValid_None_iff: "Amount_IsValid a = None \<longleftrightarrow> 0 \<le> a"
  by (simp add: Amount_IsValid_def)

lemma TransferItem_IsValid_None_iff:
  "TransferItem_IsValid it = None \<longleftrightarrow>
     addr_IsValid (receiver it) = None \<and> Amount_IsValid (amount it) = None \<and> 0 < amount it"
  by (cases "addr_IsValid (receiver it)")
     (auto simp: TransferItem_IsValid_def Amount_IsValid_def Amount_IsZero_def)

lemma IsValid_items_None_iff:
  "IsValid_items ext sndr found its = None \<longleftrightarrow>
     (\<forall>it\<in>set its. TransferItem_IsValid it = None
         \<and> StateAddressKey ext (receiver it) \<notin> found
         \<and> \<not> Address_Equal ext sndr (receiver it))
     \<and> distinct (map (\<lambda>it. StateAddressKey ext (receiver it)) its)"
proof (induction its arbitrary: found)
  case Nil
  show ?case by simp
next
  case (Cons it its)
  show ?case
  proof (cases "TransferItem_IsValid it")
    case (Some e)
    then show ?thesis by simp
  next
    case None
    have "IsValid_items ext sndr found (it # its) = None \<longleftrightarrow>
        StateAddressKey ext (receiver it) \<notin> found \<and> \<not> Address_Equal ext sndr (receiver it)
        \<and> IsValid_items ext sndr (insert (StateAddressKey ext (receiver it)) found) its = None"
      using None by (simp add: Let_def)
    also have "\<dots> \<longleftrightarrow>
        (\<forall>x\<in>set (it # its). TransferItem_IsValid x = None
           \<and> StateAddressKey ext (receiver x) \<notin> found
           \<and> \<not> Address_Equal ext sndr (receiver x))
        \<and> distinct (map (\<lambda>x. StateAddressKey ext (receiver x)) (it # its))"
      unfolding Cons.IH using None by (auto simp: image_iff)
    finally show ?thesis .
  qed
qed

lemma isvalid_Check_pair: "isvalid_Check [a, b] = None \<longleftrightarrow> a = None \<and> b = None"
  by (cases a; cases b) simp_all

lemma TransfersFact_IsValid_None_steps:
  "TransfersFact_IsValid ext tff = None \<longleftrightarrow>
      \<not> length (tff_token tff) < 1 \<and> \<not> length (tff_items tff) < 1
      \<and> \<not> length (tff_items tff) > maxTransferItems
      \<and> isvalid_Check [Hash_IsValid ext (tff_h tff), addr_IsValid (tff_sender tff)] = None
      \<and> IsValid_items ext (tff_sender tff) {} (tff_items tff) = None
      \<and> Hash_Equal (tff_h tff) (GenerateHash ext tff)"
  unfolding TransfersFact_IsValid_def by (simp split: option.splits)

text \<open>
  C2. \<^verbatim>\<open>TransfersFact.IsValid\<close> returns no error if and only if the token is not
  empty, there are between 1 and 10 items, the stored hash and the sender are
  structurally valid, the receiver and the amount of every item are structurally valid
  and the amount is over zero, no two items have receivers with the same state key, no
  receiver equals the sender, and the stored hash equals the hash generated from the
  fact's bytes.
\<close>

theorem TransfersFact_IsValid_iff:
  "TransfersFact_IsValid ext tff = None \<longleftrightarrow>
     tff_token tff \<noteq> []
     \<and> 1 \<le> length (tff_items tff) \<and> length (tff_items tff) \<le> 10
     \<and> Hash_IsValid ext (tff_h tff) = None \<and> addr_IsValid (tff_sender tff) = None
     \<and> (\<forall>it\<in>set (tff_items tff).
           addr_IsValid (receiver it) = None \<and> Amount_IsValid (amount it) = None \<and> 0 < amount it)
     \<and> distinct (map (\<lambda>it. StateAddressKey ext (receiver it)) (tff_items tff))
     \<and> (\<forall>it\<in>set (tff_items tff). \<not> Address_Equal ext (tff_sender tff) (receiver it))
     \<and> Hash_Equal (tff_h tff) (GenerateHash ext tff)"
proof -
  have items: "IsValid_items ext (tff_sender tff) {} (tff_items tff) = None \<longleftrightarrow>
      (\<forall>it\<in>set (tff_items tff).
           addr_IsValid (receiver it) = None \<and> Amount_IsValid (amount it) = None \<and> 0 < amount it)
     \<and> distinct (map (\<lambda>it. StateAddressKey ext (receiver it)) (tff_items tff))
     \<and> (\<forall>it\<in>set (tff_items tff). \<not> Address_Equal ext (tff_sender tff) (receiver it))"
    unfolding IsValid_items_None_iff TransferItem_IsValid_None_iff by auto
  have chk: "isvalid_Check [Hash_IsValid ext (tff_h tff), addr_IsValid (tff_sender tff)] = None \<longleftrightarrow>
      Hash_IsValid ext (tff_h tff) = None \<and> addr_IsValid (tff_sender tff) = None"
    by (rule isvalid_Check_pair)
  show ?thesis
    unfolding TransfersFact_IsValid_None_steps items chk maxTransferItems_def
    by (cases "tff_token tff") (auto simp: Suc_le_eq)
qed

theorem TransfersFact_IsValid_iff_witness:
  "TransfersFact_IsValid example_collaborators example_fact = None"
  using TransfersFact_IsValid_iff [of example_collaborators example_fact]
  by (simp add: example_fact_def example_collaborators_def example_address_def NewTransfersFact_def
      NewTransferItem_def Amount_IsValid_def Hash_Equal_def GenerateHash_def Let_def
      TransfersFact_Bytes_def TransferItem_Bytes_def ConcatBytesSlice_def)

section \<open>Construction and hash\<close>

text \<open>
  C8. The fact built by \<^verbatim>\<open>NewTransfersFact\<close> stores the hash that \<^verbatim>\<open>GenerateHash\<close>
  computes from that fact, so the comparison guarding the "wrong Fact hash" branch of
  \<^verbatim>\<open>IsValid\<close> finds the two equal on a fact left as constructed: whether such a fact
  is valid is decided by the other checks alone.
\<close>

theorem NewTransfersFact_hash_reverifies:
  "tff_h (NewTransfersFact ext tok sndr its) = GenerateHash ext (NewTransfersFact ext tok sndr its)
   \<and> Hash_Equal (tff_h (NewTransfersFact ext tok sndr its))
        (GenerateHash ext (NewTransfersFact ext tok sndr its))
   \<and> (TransfersFact_IsValid ext (NewTransfersFact ext tok sndr its) = None \<longleftrightarrow>
        \<not> length tok < 1 \<and> \<not> length its < 1 \<and> \<not> length its > maxTransferItems
        \<and> isvalid_Check [Hash_IsValid ext (tff_h (NewTransfersFact ext tok sndr its)), addr_IsValid sndr] = None
        \<and> IsValid_items ext sndr {} its = None)"
proof -
  have stored: "tff_h (NewTransfersFact ext tok sndr its)
      = GenerateHash ext (NewTransfersFact ext tok sndr its)"
    by (simp add: NewTransfersFact_def GenerateHash_def TransfersFact_Bytes_def Let_def)
  have fields: "tff_token (NewTransfersFact ext tok sndr its) = tok"
    "tff_sender (NewTransfersFact ext tok sndr its) = sndr"
    "tff_items (NewTransfersFact ext tok sndr its) = its"
    by (simp_all add: NewTransfersFact_def Let_def)
  have equal: "Hash_Equal (tff_h (NewTransfersFact ext tok sndr its))
      (GenerateHash ext (NewTransfersFact ext tok sndr its))"
    using stored by (simp add: Hash_Equal_def)
  show ?thesis
    unfolding TransfersFact_IsValid_None_steps fields
    using stored equal by simp
qed

text \<open>
  C7. The hash stored by \<^verbatim>\<open>NewTransfersFact\<close> is the digest of the token, the
  sender's bytes and the items' bytes laid end to end, so equal fields give equal
  hashes; with a digest that has no collisions, two constructions get the same hash
  exactly when these concatenations are the same byte string.
\<close>

theorem NewTransfersFact_hash_by_bytes:
  "tff_h (NewTransfersFact ext tok sndr its)
     = NewSHA256 ext (tok @ addr_Bytes sndr @ concat (map (TransferItem_Bytes ext) its))
   \<and> (inj (NewSHA256 ext) \<longrightarrow>
        (tff_h (NewTransfersFact ext tok sndr its) = tff_h (NewTransfersFact ext tok' sndr' its')
         \<longleftrightarrow> tok @ addr_Bytes sndr @ concat (map (TransferItem_Bytes ext) its)
             = tok' @ addr_Bytes sndr' @ concat (map (TransferItem_Bytes ext) its')))"
  by (auto simp: NewTransfersFact_def GenerateHash_def TransfersFact_Bytes_def
      ConcatBytesSlice_def Let_def dest: injD)

theorem NewTransfersFact_hash_by_bytes_witness:
  "inj (NewSHA256 example_collaborators)
   \<and> tff_h (NewTransfersFact example_collaborators [1] (example_address ''S'') [])
       \<noteq> tff_h (NewTransfersFact example_collaborators [2] (example_address ''S'') [])"
proof -
  have i: "inj (NewSHA256 example_collaborators)"
    by (simp add: example_collaborators_def inj_def)
  have "tff_h (NewTransfersFact example_collaborators [1] (example_address ''S'') [])
       = tff_h (NewTransfersFact example_collaborators [2] (example_address ''S'') [])
     \<longleftrightarrow> [1] @ addr_Bytes (example_address ''S'') @ concat (map (TransferItem_Bytes example_collaborators) [])
       = [2] @ addr_Bytes (example_address ''S'') @ concat (map (TransferItem_Bytes example_collaborators) [])"
    using i NewTransfersFact_hash_by_bytes [of example_collaborators "[1]" "example_address ''S''" "[]"
        "[2]" "example_address ''S''" "[]"]
    by blast
  then show ?thesis
    using i by simp
qed

text \<open>
  The concatenation carries no field boundaries: a token \<open>A\<close> with a sender whose bytes
  are \<open>BC\<close>, and a token \<open>AB\<close> with a sender whose bytes are \<open>C\<close>, are different
  fields of two valid facts with one hash, although the digest has no collisions.
\<close>

theorem NewTransfersFact_hash_collision:
  "inj (NewSHA256 example_collaborators)
   \<and> ([65], example_address ''BC'') \<noteq> ([65, 66], example_address ''C'')
   \<and> tff_h (NewTransfersFact example_collaborators [65] (example_address ''BC'')
             [NewTransferItem (example_address ''R'') 5])
     = tff_h (NewTransfersFact example_collaborators [65, 66] (example_address ''C'')
             [NewTransferItem (example_address ''R'') 5])
   \<and> TransfersFact_IsValid example_collaborators
        (NewTransfersFact example_collaborators [65] (example_address ''BC'')
             [NewTransferItem (example_address ''R'') 5]) = None
   \<and> TransfersFact_IsValid example_collaborators
        (NewTransfersFact example_collaborators [65, 66] (example_address ''C'')
             [NewTransferItem (example_address ''R'') 5]) = None"
  by (simp add: example_defs inj_def TransfersFact_IsValid_def TransferItem_IsValid_def
      maxTransferItems_def Amount_IsValid_def Amount_IsZero_def Hash_Equal_def Let_def)

section \<open>Addresses\<close>

text \<open>
  C9. \<^verbatim>\<open>Addresses\<close> returns no error and the receivers in item order followed by the
  sender: one more address than there are items, none removed.
\<close>

theorem Addresses_all:
  "Addresses tff = (map receiver (tff_items tff) @ [tff_sender tff], None)
   \<and> length (fst (Addresses tff)) = length (tff_items tff) + 1
   \<and> snd (Addresses tff) = None"
  by (simp add: Addresses_def)

section \<open>The envelope's own Process\<close>

text \<open>
  C10. \<^verbatim>\<open>Transfers.Process\<close> returns no error and calls neither the lookup nor the
  commit function, whatever they are.
\<close>

theorem Transfers_Process_noop:
  "Transfers_Process tf getSt setSt = (None, [])"
  by (simp add: Transfers_Process_def)

section \<open>PreProcess reads only\<close>

lemma checkExistsAccountState_calls: "snd (checkExistsAccountState k getSt) = [GetState k]"
  by (simp add: checkExistsAccountState_def split: sum.splits option.splits)

lemma existsAccountState_calls: "snd (existsAccountState k name getSt) = [GetState k]"
  by (simp add: existsAccountState_def split: sum.splits option.splits)

lemma existsAccountState_Inr:
  "fst (existsAccountState k name getSt) = Inr st \<longleftrightarrow> getSt k = Inr (Some st)"
  by (simp add: existsAccountState_def split: sum.splits option.splits)

lemma TransferProcessor_PreProcess_calls:
  "filter is_SetState (snd (snd (TransferProcessor_PreProcess ext c getSt setSt))) = []"
proof -
  obtain r1 l1 where e1: "existsAccountState (StateKeyAccount ext (receiver (tp_fact c))) ''keys of receiver'' getSt = (r1, l1)"
    by (cases "existsAccountState (StateKeyAccount ext (receiver (tp_fact c))) ''keys of receiver'' getSt")
  obtain r2 l2 where e2: "existsAccountState (StateKeyBalance ext (receiver (tp_fact c))) ''balance of receiver'' getSt = (r2, l2)"
    by (cases "existsAccountState (StateKeyBalance ext (receiver (tp_fact c))) ''balance of receiver'' getSt")
  have "l1 = [GetState (StateKeyAccount ext (receiver (tp_fact c)))]"
    using existsAccountState_calls [of "StateKeyAccount ext (receiver (tp_fact c))" "''keys of receiver''" getSt] e1 by simp
  moreover have "l2 = [GetState (StateKeyBalance ext (receiver (tp_fact c)))]"
    using existsAccountState_calls [of "StateKeyBalance ext (receiver (tp_fact c))" "''balance of receiver''" getSt] e2 by simp
  ultimately show ?thesis
    by (simp add: TransferProcessor_PreProcess_def e1 e2 split: sum.splits)
qed

lemma TransferProcessor_PreProcess_setState:
  "TransferProcessor_PreProcess ext c getSt setSt = TransferProcessor_PreProcess ext c getSt setSt'"
  by (simp add: TransferProcessor_PreProcess_def)

lemma PreProcess_items_calls:
  "filter is_SetState (snd (PreProcess_items ext hs getSt setSt its)) = []"
proof (induction its)
  case Nil
  show ?case by simp
next
  case (Cons it its)
  obtain c r l where p: "TransferProcessor_PreProcess ext
      \<lparr>tp_h = hs, tp_fact = it, tp_rb = zero_AmountState\<rparr> getSt setSt = (c, r, l)"
    by (cases "TransferProcessor_PreProcess ext \<lparr>tp_h = hs, tp_fact = it, tp_rb = zero_AmountState\<rparr> getSt setSt") auto
  have l: "filter is_SetState l = []"
    using TransferProcessor_PreProcess_calls [of ext "\<lparr>tp_h = hs, tp_fact = it, tp_rb = zero_AmountState\<rparr>" getSt setSt] p
    by simp
  obtain r' l' where q: "PreProcess_items ext hs getSt setSt its = (r', l')"
    by (cases "PreProcess_items ext hs getSt setSt its")
  have l': "filter is_SetState l' = []"
    using Cons.IH q by simp
  show ?case
    by (simp add: p q l l' split: option.splits sum.splits)
qed

lemma PreProcess_items_setState:
  "PreProcess_items ext hs getSt setSt its = PreProcess_items ext hs getSt setSt' its"
proof (induction its)
  case Nil
  show ?case by simp
next
  case (Cons it its)
  show ?case
    unfolding PreProcess_items.simps Cons.IH
      TransferProcessor_PreProcess_setState [where setSt = setSt and setSt' = setSt']
    by (rule refl)
qed

lemma is_SetState_GetState: "filter is_SetState (map GetState ks) = []"
  by (induction ks) simp_all

text \<open>
  C4. Neither \<^verbatim>\<open>TransfersProcessor.PreProcess\<close> nor \<^verbatim>\<open>TransferProcessor.PreProcess\<close>
  calls the commit function, whatever the input and whatever they return, and what they
  return does not depend on it: an operation that fails pre-processing has written
  nothing to the ledger.
\<close>

theorem PreProcess_never_commits:
  "filter is_SetState (snd (snd (TransfersProcessor_PreProcess ext tf getSt setSt))) = []
   \<and> filter is_SetState (snd (snd (TransferProcessor_PreProcess ext c getSt setSt))) = []
   \<and> TransfersProcessor_PreProcess ext tf getSt setSt = TransfersProcessor_PreProcess ext tf getSt setSt'
   \<and> TransferProcessor_PreProcess ext c getSt setSt = TransferProcessor_PreProcess ext c getSt setSt'"
proof -
  let ?fact = "tf_Fact (tsp_Transfers tf)"
  obtain r1 l1 where e1: "checkExistsAccountState (StateKeyAccount ext (tff_sender ?fact)) getSt = (r1, l1)"
    by (cases "checkExistsAccountState (StateKeyAccount ext (tff_sender ?fact)) getSt")
  obtain r2 l2 where e2: "existsAccountState (StateKeyBalance ext (tff_sender ?fact)) ''balance of sender'' getSt = (r2, l2)"
    by (cases "existsAccountState (StateKeyBalance ext (tff_sender ?fact)) ''balance of sender'' getSt")
  obtain r3 l3 where e3: "PreProcess_items ext (tf_Hash (tsp_Transfers tf)) getSt setSt (tff_items ?fact) = (r3, l3)"
    by (cases "PreProcess_items ext (tf_Hash (tsp_Transfers tf)) getSt setSt (tff_items ?fact)")
  obtain ks r4 where e4: "checkFactSignsByState ext (tff_sender ?fact) (tf_Signs (tsp_Transfers tf)) getSt = (ks, r4)"
    by (cases "checkFactSignsByState ext (tff_sender ?fact) (tf_Signs (tsp_Transfers tf)) getSt")
  have l1: "filter is_SetState l1 = []"
    using checkExistsAccountState_calls [of "StateKeyAccount ext (tff_sender ?fact)" getSt] e1 by simp
  have l2: "filter is_SetState l2 = []"
    using existsAccountState_calls [of "StateKeyBalance ext (tff_sender ?fact)" "''balance of sender''" getSt] e2 by simp
  have l3: "filter is_SetState l3 = []"
    using PreProcess_items_calls [of ext "tf_Hash (tsp_Transfers tf)" getSt setSt "tff_items ?fact"] e3 by simp
  have "filter is_SetState (snd (snd (TransfersProcessor_PreProcess ext tf getSt setSt))) = []"
    by (simp add: TransfersProcessor_PreProcess_def Let_def e1 e2 e3 e4 l1 l2 l3 is_SetState_GetState
        split: option.splits sum.splits)
  moreover have "TransfersProcessor_PreProcess ext tf getSt setSt = TransfersProcessor_PreProcess ext tf getSt setSt'"
    unfolding TransfersProcessor_PreProcess_def
      PreProcess_items_setState [where setSt = setSt and setSt' = setSt']
    by (rule refl)
  ultimately show ?thesis
    using TransferProcessor_PreProcess_calls [of ext c getSt setSt]
      TransferProcessor_PreProcess_setState [of ext c getSt setSt setSt']
    by simp
qed

section \<open>The checks of PreProcess\<close>

lemma foldl_Amount_Add:
  "foldl (\<lambda>a it. Amount_Add a (amount it)) acc its = acc + sum_list (map amount its)"
  by (induction its arbitrary: acc) (simp_all add: Amount_Add_def)

lemma TransfersFact_Amount_sum:
  "TransfersFact_Amount tff = sum_list (map amount (tff_items tff))"
  by (simp add: TransfersFact_Amount_def foldl_Amount_Add NewAmount_def)

lemma Amount_Compare_less: "Amount_Compare a b < 0 \<longleftrightarrow> a < b"
  by (simp add: Amount_Compare_def)

lemma PreProcess_items_Inl:
  "fst (PreProcess_items ext hs getSt setSt its) = Inl e \<Longrightarrow> \<exists>e'. e = IgnoreError_Wrap e'"
proof (induction its)
  case Nil
  then show ?case by simp
next
  case (Cons it its)
  obtain c r l where p: "TransferProcessor_PreProcess ext
      \<lparr>tp_h = hs, tp_fact = it, tp_rb = zero_AmountState\<rparr> getSt setSt = (c, r, l)"
    by (cases "TransferProcessor_PreProcess ext \<lparr>tp_h = hs, tp_fact = it, tp_rb = zero_AmountState\<rparr> getSt setSt") auto
  obtain r' l' where q: "PreProcess_items ext hs getSt setSt its = (r', l')"
    by (cases "PreProcess_items ext hs getSt setSt its")
  show ?case
  proof (cases r)
    case (Some e0)
    with Cons.prems p show ?thesis by auto
  next
    case None
    with Cons.prems p q have "r' = Inl e"
      by (cases r') simp_all
    with Cons.IH q show ?thesis by simp
  qed
qed

lemma PreProcess_steps:
  assumes acc: "fst (checkExistsAccountState (StateKeyAccount ext (tff_sender (tf_Fact (tsp_Transfers tf)))) getSt) = None"
    and bal: "fst (existsAccountState (StateKeyBalance ext (tff_sender (tf_Fact (tsp_Transfers tf)))) ''balance of sender'' getSt) = Inr st"
    and fee: "calculateFee tf = Inr f"
    and val: "StateAmountValue st = Inr b"
  shows "fst (snd (TransfersProcessor_PreProcess ext tf getSt setSt)) =
     (if b < TransfersFact_Amount (tf_Fact (tsp_Transfers tf)) + f
      then Some (IgnoreError_Errorf ''insufficient balance of sender'')
      else
        (case fst (PreProcess_items ext (tf_Hash (tsp_Transfers tf)) getSt setSt
                     (tff_items (tf_Fact (tsp_Transfers tf)))) of
           Inl e \<Rightarrow> Some e
         | Inr cs \<Rightarrow>
             (case snd (checkFactSignsByState ext (tff_sender (tf_Fact (tsp_Transfers tf)))
                          (tf_Signs (tsp_Transfers tf)) getSt) of
                Some e \<Rightarrow> Some (Errorf_w ''invalid signing'' e)
              | None \<Rightarrow> None)))"
proof -
  let ?fact = "tf_Fact (tsp_Transfers tf)"
  obtain l1 where e1: "checkExistsAccountState (StateKeyAccount ext (tff_sender ?fact)) getSt = (None, l1)"
    using acc by (cases "checkExistsAccountState (StateKeyAccount ext (tff_sender ?fact)) getSt") simp
  obtain l2 where e2: "existsAccountState (StateKeyBalance ext (tff_sender ?fact)) ''balance of sender'' getSt = (Inr st, l2)"
    using bal by (cases "existsAccountState (StateKeyBalance ext (tff_sender ?fact)) ''balance of sender'' getSt") simp
  obtain r3 l3 where e3: "PreProcess_items ext (tf_Hash (tsp_Transfers tf)) getSt setSt (tff_items ?fact) = (r3, l3)"
    by (cases "PreProcess_items ext (tf_Hash (tsp_Transfers tf)) getSt setSt (tff_items ?fact)")
  obtain ks r4 where e4: "checkFactSignsByState ext (tff_sender ?fact) (tf_Signs (tsp_Transfers tf)) getSt = (ks, r4)"
    by (cases "checkFactSignsByState ext (tff_sender ?fact) (tf_Signs (tsp_Transfers tf)) getSt")
  show ?thesis
    by (simp add: TransfersProcessor_PreProcess_def Let_def e1 e2 e3 e4 fee val
        Amount_Compare_less Amount_Add_def split: sum.splits option.splits)
qed

text \<open>
  C6. Once the sender's account and balance entry are found, the fee is computed and
  the entry holds an amount, \<^verbatim>\<open>PreProcess\<close> returns the ignorable error
  "insufficient balance of sender" exactly when that amount is less than the sum of the
  item amounts plus the fee; at equality it does not.
\<close>

theorem PreProcess_insufficient_balance_iff:
  assumes "fst (checkExistsAccountState (StateKeyAccount ext (tff_sender (tf_Fact (tsp_Transfers tf)))) getSt) = None"
    and "fst (existsAccountState (StateKeyBalance ext (tff_sender (tf_Fact (tsp_Transfers tf)))) ''balance of sender'' getSt) = Inr st"
    and "calculateFee tf = Inr f"
    and "StateAmountValue st = Inr b"
  shows "(fst (snd (TransfersProcessor_PreProcess ext tf getSt setSt))
            = Some (IgnoreError_Errorf ''insufficient balance of sender'')
          \<longleftrightarrow> b < sum_list (map amount (tff_items (tf_Fact (tsp_Transfers tf)))) + f)
       \<and> is_IgnoreError (IgnoreError_Errorf ''insufficient balance of sender'')"
proof -
  let ?items = "PreProcess_items ext (tf_Hash (tsp_Transfers tf)) getSt setSt
                     (tff_items (tf_Fact (tsp_Transfers tf)))"
  have wrap: "fst ?items \<noteq> Inl (IgnoreError_Errorf ''insufficient balance of sender'')"
    using PreProcess_items_Inl [of ext "tf_Hash (tsp_Transfers tf)" getSt setSt
        "tff_items (tf_Fact (tsp_Transfers tf))" "IgnoreError_Errorf ''insufficient balance of sender''"]
    by auto
  show ?thesis
    unfolding PreProcess_steps [OF assms] TransfersFact_Amount_sum
    using wrap by (auto split: sum.splits option.splits)
qed

theorem PreProcess_insufficient_balance_iff_witness:
  "calculateFee example_processor = Inr 2
   \<and> fst (snd (TransfersProcessor_PreProcess example_collaborators example_processor
              (example_getState 52) example_setState))
       \<noteq> Some (IgnoreError_Errorf ''insufficient balance of sender'')
   \<and> fst (snd (TransfersProcessor_PreProcess example_collaborators example_processor
              (example_getState 51) example_setState))
       = Some (IgnoreError_Errorf ''insufficient balance of sender'')"
  using PreProcess_insufficient_balance_iff [of example_collaborators example_processor
      "example_getState 52" "\<lparr>st_Key = ''S:balance'', st_AmountValue = Inr 52\<rparr>" 2 52 example_setState]
    PreProcess_insufficient_balance_iff [of example_collaborators example_processor
      "example_getState 51" "\<lparr>st_Key = ''S:balance'', st_AmountValue = Inr 51\<rparr>" 2 51 example_setState]
  by (simp add: example_defs processor_defs)



section \<open>Process\<close>

lemma TransferProcessor_PreProcess_None:
  assumes "TransferProcessor_PreProcess ext c getSt setSt = (c', None, l)"
  shows "tp_fact c' = tp_fact c \<and> tp_h c' = tp_h c
         \<and> Some (tp_rb c') = resolved_balance ext getSt (receiver (tp_fact c))"
proof -
  obtain r1 l1 where e1: "existsAccountState (StateKeyAccount ext (receiver (tp_fact c))) ''keys of receiver'' getSt = (r1, l1)"
    by (cases "existsAccountState (StateKeyAccount ext (receiver (tp_fact c))) ''keys of receiver'' getSt")
  obtain r2 l2 where e2: "existsAccountState (StateKeyBalance ext (receiver (tp_fact c))) ''balance of receiver'' getSt = (r2, l2)"
    by (cases "existsAccountState (StateKeyBalance ext (receiver (tp_fact c))) ''balance of receiver'' getSt")
  from assms e1 e2 obtain st where r2: "r2 = Inr st" and c': "c' = c\<lparr>tp_rb := NewAmountState st\<rparr>"
    by (cases r1; cases r2) (auto simp: TransferProcessor_PreProcess_def)
  have "getSt (StateKeyBalance ext (receiver (tp_fact c))) = Inr (Some st)"
    using existsAccountState_Inr [of "StateKeyBalance ext (receiver (tp_fact c))" "''balance of receiver''" getSt st]
      e2 r2 by simp
  then show ?thesis
    by (simp add: c' resolved_balance_def)
qed

lemma PreProcess_items_Inr:
  "fst (PreProcess_items ext hs getSt setSt its) = Inr cs \<Longrightarrow>
     map tp_fact cs = its
     \<and> map (\<lambda>c. Some (tp_rb c)) cs = map (\<lambda>it. resolved_balance ext getSt (receiver it)) its"
proof (induction its arbitrary: cs)
  case Nil
  then show ?case by simp
next
  case (Cons it its)
  obtain c r l where p: "TransferProcessor_PreProcess ext
      \<lparr>tp_h = hs, tp_fact = it, tp_rb = zero_AmountState\<rparr> getSt setSt = (c, r, l)"
    by (cases "TransferProcessor_PreProcess ext \<lparr>tp_h = hs, tp_fact = it, tp_rb = zero_AmountState\<rparr> getSt setSt") auto
  obtain r' l' where q: "PreProcess_items ext hs getSt setSt its = (r', l')"
    by (cases "PreProcess_items ext hs getSt setSt its")
  from Cons.prems p have r: "r = None"
    by (cases r) simp_all
  from Cons.prems p q r obtain cs' where r': "r' = Inr cs'" and cs: "cs = c # cs'"
    by (cases r') auto
  have hd: "tp_fact c = it \<and> Some (tp_rb c) = resolved_balance ext getSt (receiver it)"
    using TransferProcessor_PreProcess_None [of ext "\<lparr>tp_h = hs, tp_fact = it, tp_rb = zero_AmountState\<rparr>" getSt setSt c l]
      p r by simp
  have tl: "map tp_fact cs' = its
     \<and> map (\<lambda>c. Some (tp_rb c)) cs' = map (\<lambda>it. resolved_balance ext getSt (receiver it)) its"
    using Cons.IH [of cs'] q r' by simp
  show ?case
    using hd tl by (simp add: cs)
qed

lemma PreProcess_None:
  assumes "TransfersProcessor_PreProcess ext tf getSt setSt = (tf', None, l)"
  shows "\<exists>st f b cs.
      getSt (StateKeyBalance ext (tff_sender (tf_Fact (tsp_Transfers tf)))) = Inr (Some st)
      \<and> calculateFee tf = Inr f \<and> StateAmountValue st = Inr b
      \<and> \<not> b < TransfersFact_Amount (tf_Fact (tsp_Transfers tf)) + f
      \<and> fst (PreProcess_items ext (tf_Hash (tsp_Transfers tf)) getSt setSt
               (tff_items (tf_Fact (tsp_Transfers tf)))) = Inr cs
      \<and> tf' = tf\<lparr>tsp_sb := NewAmountState st, tsp_fee := f, tsp_rb := cs\<rparr>"
proof -
  let ?fact = "tf_Fact (tsp_Transfers tf)"
  obtain r1 l1 where e1: "checkExistsAccountState (StateKeyAccount ext (tff_sender ?fact)) getSt = (r1, l1)"
    by (cases "checkExistsAccountState (StateKeyAccount ext (tff_sender ?fact)) getSt")
  obtain r2 l2 where e2: "existsAccountState (StateKeyBalance ext (tff_sender ?fact)) ''balance of sender'' getSt = (r2, l2)"
    by (cases "existsAccountState (StateKeyBalance ext (tff_sender ?fact)) ''balance of sender'' getSt")
  obtain r3 l3 where e3: "PreProcess_items ext (tf_Hash (tsp_Transfers tf)) getSt setSt (tff_items ?fact) = (r3, l3)"
    by (cases "PreProcess_items ext (tf_Hash (tsp_Transfers tf)) getSt setSt (tff_items ?fact)")
  obtain ks r4 where e4: "checkFactSignsByState ext (tff_sender ?fact) (tf_Signs (tsp_Transfers tf)) getSt = (ks, r4)"
    by (cases "checkFactSignsByState ext (tff_sender ?fact) (tf_Signs (tsp_Transfers tf)) getSt")
  from assms have "r1 = None \<and> (\<exists>st f b cs. r2 = Inr st \<and> calculateFee tf = Inr f
      \<and> StateAmountValue st = Inr b \<and> \<not> b < TransfersFact_Amount ?fact + f \<and> r3 = Inr cs
      \<and> tf' = tf\<lparr>tsp_sb := NewAmountState st, tsp_fee := f, tsp_rb := cs\<rparr>)"
    unfolding TransfersProcessor_PreProcess_def Let_def e1 e2 e3 e4
    by (auto simp: Amount_Compare_less Amount_Add_def split: option.splits sum.splits if_splits)
  then obtain st f b cs where "r2 = Inr st" and rest: "calculateFee tf = Inr f"
      "StateAmountValue st = Inr b" "\<not> b < TransfersFact_Amount ?fact + f" "r3 = Inr cs"
      "tf' = tf\<lparr>tsp_sb := NewAmountState st, tsp_fee := f, tsp_rb := cs\<rparr>"
    by blast
  then have "getSt (StateKeyBalance ext (tff_sender ?fact)) = Inr (Some st)"
    using existsAccountState_Inr [of "StateKeyBalance ext (tff_sender ?fact)" "''balance of sender''" getSt st] e2
    by simp
  with rest e3 show ?thesis
    by auto
qed

lemma Process_items_eq:
  "Process_items getSt setSt cs =
     (Inr (map (\<lambda>c. AmountState_Add (tp_rb c) (amount (tp_fact c))) cs), [])"
  by (induction cs) (simp_all add: TransferProcessor_Process_def)

lemma TransfersProcessor_Process_eq:
  "TransfersProcessor_Process tf getSt setSt =
     (setSt (tff_h (tf_Fact (tsp_Transfers tf)))
        (map (\<lambda>c. AmountState_Add (tp_rb c) (amount (tp_fact c))) (tsp_rb tf) @
         [AmountState_AddFee
            (AmountState_Sub (tsp_sb tf)
               (sum_list (map amount (tff_items (tf_Fact (tsp_Transfers tf)))) + tsp_fee tf))
            (tsp_fee tf)]),
      [SetState (tff_h (tf_Fact (tsp_Transfers tf)))
        (map (\<lambda>c. AmountState_Add (tp_rb c) (amount (tp_fact c))) (tsp_rb tf) @
         [AmountState_AddFee
            (AmountState_Sub (tsp_sb tf)
               (sum_list (map amount (tff_items (tf_Fact (tsp_Transfers tf)))) + tsp_fee tf))
            (tsp_fee tf)])])"
  by (simp add: TransfersProcessor_Process_def Process_items_eq Let_def
      TransfersFact_Amount_sum Amount_Add_def)

lemma credited_Add:
  "sum_list (map2 credited (map tp_rb cs)
      (map (\<lambda>c. AmountState_Add (tp_rb c) (amount (tp_fact c))) cs))
   = sum_list (map amount (map tp_fact cs))"
  by (induction cs) (simp_all add: credited_def AmountState_Add_def Amount_Add_def)

lemma example_PreProcess:
  "TransfersProcessor_PreProcess example_collaborators example_processor (example_getState 100)
     example_setState =
   (example_preprocessed, None,
    [GetState ''S:account'', GetState ''S:balance'', GetState ''A:account'',
     GetState ''A:balance'', GetState ''B:account'', GetState ''B:balance''])"
  by (simp add: TransfersProcessor_PreProcess_def example_preprocessed_def example_defs
      processor_defs TransfersFact_Amount_def Amount_Compare_def)

text \<open>
  C5. After a successful \<^verbatim>\<open>PreProcess\<close> of an operation with \<open>N\<close> items,
  \<^verbatim>\<open>Process\<close> makes one call, to the commit function, with the hash of the fact and
  \<open>N + 1\<close> states: for each item in order the balance its receiver resolved to with the
  item's amount added, then the balance the sender resolved to after
  \<^verbatim>\<open>Sub(principal + fee).AddFee(fee)\<close>, the principal being the sum of the item
  amounts and the fee the one \<^verbatim>\<open>calculateFee\<close> computed. \<^verbatim>\<open>Process\<close> returns what the
  commit function returns.
\<close>

theorem Process_commits_all_states_once:
  assumes "TransfersProcessor_PreProcess ext tf getSt setSt = (tf', None, l)"
  shows "let fact = tf_Fact (tsp_Transfers tf);
             sts = map (\<lambda>c. AmountState_Add (tp_rb c) (amount (tp_fact c))) (tsp_rb tf') @
                   [AmountState_AddFee
                      (AmountState_Sub (tsp_sb tf')
                         (sum_list (map amount (tff_items fact)) + tsp_fee tf'))
                      (tsp_fee tf')]
         in TransfersProcessor_Process tf' getSt' setSt'
              = (setSt' (tff_h fact) sts, [SetState (tff_h fact) sts])
            \<and> length sts = length (tff_items fact) + 1
            \<and> map tp_fact (tsp_rb tf') = tff_items fact
            \<and> map (\<lambda>c. Some (tp_rb c)) (tsp_rb tf')
                = map (\<lambda>it. resolved_balance ext getSt (receiver it)) (tff_items fact)
            \<and> Some (tsp_sb tf') = resolved_balance ext getSt (tff_sender fact)
            \<and> calculateFee tf = Inr (tsp_fee tf')"
proof -
  let ?fact = "tf_Fact (tsp_Transfers tf)"
  from PreProcess_None [OF assms] obtain st f b cs where
    st: "getSt (StateKeyBalance ext (tff_sender ?fact)) = Inr (Some st)"
    and f: "calculateFee tf = Inr f"
    and cs: "fst (PreProcess_items ext (tf_Hash (tsp_Transfers tf)) getSt setSt (tff_items ?fact)) = Inr cs"
    and tf': "tf' = tf\<lparr>tsp_sb := NewAmountState st, tsp_fee := f, tsp_rb := cs\<rparr>"
    by blast
  have items: "map tp_fact cs = tff_items ?fact"
    "map (\<lambda>c. Some (tp_rb c)) cs = map (\<lambda>it. resolved_balance ext getSt (receiver it)) (tff_items ?fact)"
    using PreProcess_items_Inr [OF cs] by simp_all
  have len: "length cs = length (tff_items ?fact)"
    using items(1) by (metis length_map)
  have sb: "Some (NewAmountState st) = resolved_balance ext getSt (tff_sender ?fact)"
    by (simp add: resolved_balance_def st)
  show ?thesis
    unfolding Let_def TransfersProcessor_Process_eq
    by (simp add: tf' items len sb f)
qed

theorem Process_commits_all_states_once_witness:
  "TransfersProcessor_Process example_preprocessed (example_getState 100) example_setState =
     (None,
      [SetState (tff_h example_fact)
        [\<lparr>as_State = Some \<lparr>st_Key = ''A:balance'', st_AmountValue = Inr 7\<rparr>, as_add = 30, as_fee = 0\<rparr>,
         \<lparr>as_State = Some \<lparr>st_Key = ''B:balance'', st_AmountValue = Inr 0\<rparr>, as_add = 20, as_fee = 0\<rparr>,
         \<lparr>as_State = Some \<lparr>st_Key = ''S:balance'', st_AmountValue = Inr 100\<rparr>, as_add = - 52, as_fee = 2\<rparr>]])"
  using Process_commits_all_states_once [OF example_PreProcess,
      of "example_getState 100" example_setState]
  by (simp add: Let_def example_preprocessed_def example_processor_def example_setState_def
      example_fact_def NewTransfersFact_def NewTransferItem_def NewAmountState_def NewAmount_def
      AmountState_Add_def AmountState_Sub_def AmountState_AddFee_def Amount_Add_def Amount_Sub_def)

text \<open>
  C3. After a successful \<^verbatim>\<open>PreProcess\<close> and a successful \<^verbatim>\<open>Process\<close>, the balance
  of the sender before the operation equals the sum of what the receivers were credited
  plus the balance of the sender in the state committed plus the computed fee; the
  credits add up to the sum of the item amounts.
\<close>

theorem Process_conserves_value:
  assumes "TransfersProcessor_PreProcess ext tf getSt setSt = (tf', None, l)"
    and "TransfersProcessor_Process tf' getSt' setSt' = (None, l')"
  shows "\<exists>b b' sts.
      l' = [SetState (tff_h (tf_Fact (tsp_Transfers tf))) sts]
      \<and> AmountState_balance (tsp_sb tf') = Some b
      \<and> AmountState_balance (last sts) = Some b'
      \<and> calculateFee tf = Inr (tsp_fee tf')
      \<and> sum_list (map2 credited (map tp_rb (tsp_rb tf')) (butlast sts))
          = sum_list (map amount (tff_items (tf_Fact (tsp_Transfers tf))))
      \<and> b = sum_list (map2 credited (map tp_rb (tsp_rb tf')) (butlast sts)) + b' + tsp_fee tf'"
proof -
  let ?fact = "tf_Fact (tsp_Transfers tf)"
  from PreProcess_None [OF assms(1)] obtain st f b cs where
    f: "calculateFee tf = Inr f"
    and b: "StateAmountValue st = Inr b"
    and cs: "fst (PreProcess_items ext (tf_Hash (tsp_Transfers tf)) getSt setSt (tff_items ?fact)) = Inr cs"
    and tf': "tf' = tf\<lparr>tsp_sb := NewAmountState st, tsp_fee := f, tsp_rb := cs\<rparr>"
    by blast
  have items: "map tp_fact cs = tff_items ?fact"
    using PreProcess_items_Inr [OF cs] by simp
  let ?rs = "map (\<lambda>c. AmountState_Add (tp_rb c) (amount (tp_fact c))) cs"
  let ?s = "AmountState_AddFee
              (AmountState_Sub (NewAmountState st) (sum_list (map amount (tff_items ?fact)) + f)) f"
  have l': "l' = [SetState (tff_h ?fact) (?rs @ [?s])]"
    using assms(2) unfolding TransfersProcessor_Process_eq by (simp add: tf')
  have before: "AmountState_balance (tsp_sb tf') = Some b"
    by (simp add: tf' AmountState_balance_def NewAmountState_def NewAmount_def Amount_Add_def b)
  have after: "AmountState_balance (last (?rs @ [?s]))
      = Some (b - (sum_list (map amount (tff_items ?fact)) + f))"
    by (simp add: AmountState_balance_def NewAmountState_def NewAmount_def Amount_Add_def
        Amount_Sub_def AmountState_AddFee_def AmountState_Sub_def b)
  have credits: "sum_list (map2 credited (map tp_rb cs) (butlast (?rs @ [?s])))
      = sum_list (map amount (tff_items ?fact))"
    using credited_Add [of cs] by (simp add: items)
  have fee: "tsp_fee tf' = f" and rb: "tsp_rb tf' = cs"
    by (simp_all add: tf')
  show ?thesis
    apply (rule exI [of _ b])
    apply (rule exI [of _ "b - (sum_list (map amount (tff_items ?fact)) + f)"])
    apply (rule exI [of _ "?rs @ [?s]"])
    unfolding fee rb credits
    using l' before after f by simp
qed

theorem Process_conserves_value_witness:
  "\<exists>b b' sts.
      [SetState (tff_h example_fact) sts]
        = snd (TransfersProcessor_Process example_preprocessed (example_getState 100) example_setState)
      \<and> AmountState_balance (tsp_sb example_preprocessed) = Some b
      \<and> AmountState_balance (last sts) = Some b'
      \<and> b = 100 \<and> b' = 48
      \<and> sum_list (map2 credited (map tp_rb (tsp_rb example_preprocessed)) (butlast sts)) = 50
      \<and> tsp_fee example_preprocessed = 2"
proof -
  have p: "TransfersProcessor_Process example_preprocessed (example_getState 100) example_setState
      = (None, snd (TransfersProcessor_Process example_preprocessed (example_getState 100) example_setState))"
    by (simp add: TransfersProcessor_Process_eq example_setState_def)
  from Process_conserves_value [OF example_PreProcess p]
  obtain b b' sts where
    "snd (TransfersProcessor_Process example_preprocessed (example_getState 100) example_setState)
       = [SetState (tff_h (tf_Fact (tsp_Transfers example_processor))) sts]"
    "AmountState_balance (tsp_sb example_preprocessed) = Some b"
    "AmountState_balance (last sts) = Some b'"
    "sum_list (map2 credited (map tp_rb (tsp_rb example_preprocessed)) (butlast sts))
          = sum_list (map amount (tff_items (tf_Fact (tsp_Transfers example_processor))))"
    "b = sum_list (map2 credited (map tp_rb (tsp_rb example_preprocessed)) (butlast sts)) + b'
           + tsp_fee example_preprocessed"
    by blast
  moreover have "tsp_fee example_preprocessed = 2"
    "AmountState_balance (tsp_sb example_preprocessed) = Some 100"
    "sum_list (map amount (tff_items (tf_Fact (tsp_Transfers example_processor)))) = 50"
    "tf_Fact (tsp_Transfers example_processor) = example_fact"
    by (simp_all add: example_preprocessed_def example_processor_def AmountState_balance_def
        NewAmountState_def NewAmount_def Amount_Add_def StateAmountValue_def example_fact_def
        NewTransfersFact_def NewTransferItem_def)
  ultimately show ?thesis
    by auto
qed

end
